theory Spec2Isabelle
  imports Complex_Main
begin

section \<open>Data model\<close>

text \<open>
  The embedding follows \<^verbatim>\<open>radioactivedecay/radionuclide.py\<close>. Python's floating-point
  numbers are idealised as \<^typ>\<open>real\<close>: rounding, overflow and the IEEE special values are
  not represented. A float division whose divisor is zero is therefore kept apart as the
  outcome \<open>FloatDivideByZero\<close> (for a \<^verbatim>\<open>numpy.float64\<close> the run time gives inf or nan with a
  warning, for a Python float it raises \<^verbatim>\<open>ZeroDivisionError\<close>); the model never evaluates
  a quotient of reals with divisor zero.
\<close>

datatype error =
    InvalidIdentifier
  | InvalidUnit
  | KeyError
  | IndexError
  | FloatDivideByZero
  | IncompatibleDataset

text \<open>
  \<^verbatim>\<open>DecayData\<close> is defined in \<^verbatim>\<open>radioactivedecay/decaydata.py\<close>; the record has the
  attributes that \<^verbatim>\<open>radionuclide.py\<close> reads. A progeny dictionary keeps its insertion
  order, so it is an association list from the progeny name to the two-element list
  \<^verbatim>\<open>[branching fraction, decay mode]\<close> (a pair here).
\<close>

type_synonym prog_dict = "(string \<times> real \<times> string) list"

record DecayData =
  dataset :: string
  radionuclides :: "string list"
  radionuclide_dict :: "string \<rightharpoonup> nat"
  decay_consts :: "real list"
  prog_bfs_modes :: "prog_dict list"
  year_conv :: real
  ln2 :: real

text \<open>The attributes of a constructed \<^verbatim>\<open>Radionuclide\<close> instance.\<close>

record Radionuclide =
  radionuclide :: string
  decay_constant :: real
  prog_bf_mode :: prog_dict
  data :: DecayData

text \<open>
  The attribute store of an instance while \<^verbatim>\<open>__init__\<close> runs: \<open>None\<close> is an attribute
  that has not been assigned.
\<close>

record attrs =
  attr_radionuclide :: "string option"
  attr_decay_constant :: "real option"
  attr_prog_bf_mode :: "prog_dict option"
  attr_data :: "DecayData option"

definition no_attrs :: attrs where
  "no_attrs = \<lparr>attr_radionuclide = None, attr_decay_constant = None,
                attr_prog_bf_mode = None, attr_data = None\<rparr>"

section \<open>Nuclide identifiers\<close>

definition is_digit :: "char \<Rightarrow> bool" where
  "is_digit c = (c \<in> set ''0123456789'')"

definition is_upper :: "char \<Rightarrow> bool" where
  "is_upper c = (c \<in> set ''ABCDEFGHIJKLMNOPQRSTUVWXYZ'')"

definition is_lower :: "char \<Rightarrow> bool" where
  "is_lower c = (c \<in> set ''abcdefghijklmnopqrstuvwxyz'')"

definition is_letter :: "char \<Rightarrow> bool" where
  "is_letter c = (is_upper c \<or> is_lower c)"

text \<open>
  The three parts of an identifier: an element symbol of one or two letters (an upper-case
  letter, then possibly one more letter), a mass number of one to three digits, and an
  optional metastable suffix \<open>m\<close> or \<open>n\<close>.
\<close>

definition valid_symbol :: "string \<Rightarrow> bool" where
  "valid_symbol s = (case s of
       [a] \<Rightarrow> is_upper a
     | [a, b] \<Rightarrow> is_upper a \<and> is_letter b
     | _ \<Rightarrow> False)"

definition valid_mass :: "string \<Rightarrow> bool" where
  "valid_mass s = (1 \<le> length s \<and> length s \<le> 3 \<and> list_all is_digit s)"

definition valid_suffix :: "string \<Rightarrow> bool" where
  "valid_suffix s = (s = [] \<or> s = ''m'' \<or> s = ''n'')"

definition canonical_form :: "string \<Rightarrow> string \<Rightarrow> string \<Rightarrow> string" where
  "canonical_form el mass suf = el @ ''-'' @ mass @ suf"

text \<open>
  Splitting a raw identifier into (symbol, mass, suffix) by the accepted layouts:
  \<open>Symbol-Mass[Suffix]\<close> and \<open>SymbolMass[Suffix]\<close> when the string starts with a letter,
  \<open>Mass[Suffix]Symbol\<close> when it starts with a digit (the suffix next to the mass number).
\<close>

definition split_symbol_first :: "string \<Rightarrow> (string \<times> string \<times> string) option" where
  "split_symbol_first raw =
     (let el = takeWhile is_letter raw;
          rest = dropWhile is_letter raw;
          rest' = (case rest of c # cs \<Rightarrow> if c = CHR ''-'' then cs else rest | [] \<Rightarrow> rest);
          mass = takeWhile is_digit rest';
          suf = dropWhile is_digit rest'
      in if valid_symbol el \<and> valid_mass mass \<and> valid_suffix suf
         then Some (el, mass, suf) else None)"

definition split_mass_first :: "string \<Rightarrow> (string \<times> string \<times> string) option" where
  "split_mass_first raw =
     (let mass = takeWhile is_digit raw;
          rest = dropWhile is_digit raw
      in if \<not> valid_mass mass then None
         else if valid_symbol rest then Some (rest, mass, [])
         else (case rest of
                 c # el \<Rightarrow> if valid_suffix [c] \<and> valid_symbol el
                            then Some (el, mass, [c]) else None
               | [] \<Rightarrow> None))"

definition split_identifier :: "string \<Rightarrow> (string \<times> string \<times> string) option" where
  "split_identifier raw =
     (case raw of
        [] \<Rightarrow> None
      | c # _ \<Rightarrow> if is_digit c then split_mass_first raw else split_symbol_first raw)"

text \<open>
  Modelled from the spec: \<^verbatim>\<open>parse_radionuclide\<close> of \<^verbatim>\<open>radioactivedecay/utils.py\<close>, which
  is not among the sources. Section 4.1 of the specification: the raw string is accepted in
  the three layouts above, the result is always \<open>Symbol-Mass[Suffix]\<close>, and the call fails
  with \<open>InvalidIdentifier\<close> when the string cannot be parsed or names a nuclide that is not
  in the dataset's list. The third argument is the dataset's name, which only the error
  message uses.
\<close>

definition parse_radionuclide :: "string \<Rightarrow> string list \<Rightarrow> string \<Rightarrow> error + string" where
  "parse_radionuclide raw nuclides dataset_name =
     (case split_identifier raw of
        None \<Rightarrow> Inl InvalidIdentifier
      | Some (el, mass, suf) \<Rightarrow>
          if canonical_form el mass suf \<in> set nuclides
          then Inr (canonical_form el mass suf)
          else Inl InvalidIdentifier)"

section \<open>Time units\<close>

definition second_units :: "(string \<times> real) list" where
  "second_units =
     [(''s'', 1), (''sec'', 1), (''second'', 1), (''seconds'', 1),
      (''ms'', 1 / 10 ^ 3), (''us'', 1 / 10 ^ 6), (''ns'', 1 / 10 ^ 9),
      (''m'', 60), (''min'', 60),
      (''h'', 3600), (''hr'', 3600), (''hour'', 3600), (''hours'', 3600),
      (''d'', 86400), (''day'', 86400), (''days'', 86400)]"

definition year_units :: "(string \<times> real) list" where
  "year_units =
     [(''y'', 1), (''yr'', 1), (''year'', 1), (''years'', 1),
      (''ky'', 10 ^ 3), (''My'', 10 ^ 6), (''Gy'', 10 ^ 9),
      (''Ty'', 10 ^ 12), (''Py'', 10 ^ 15)]"

definition recognized_unit :: "string \<Rightarrow> bool" where
  "recognized_unit u = (u \<in> set (map fst second_units) \<or> u \<in> set (map fst year_units))"

text \<open>The seconds in one unit; a year is \<open>year_conv\<close> days of 86400 seconds.\<close>

definition seconds_per_unit :: "real \<Rightarrow> string \<Rightarrow> real option" where
  "seconds_per_unit yc u =
     (case map_of second_units u of
        Some c \<Rightarrow> Some c
      | None \<Rightarrow> (case map_of year_units u of
                   Some k \<Rightarrow> Some (k * (yc * 86400))
                 | None \<Rightarrow> None))"

text \<open>
  Modelled from the spec: \<^verbatim>\<open>time_unit_conv\<close> of \<^verbatim>\<open>radioactivedecay/utils.py\<close>, which is
  not among the sources. Section 4.2 of the specification: the value is converted to
  seconds with the seconds-per-unit constant of \<open>units_from\<close>, then divided by the constant
  of \<open>units_to\<close>; an unrecognized token on either side fails with \<open>InvalidUnit\<close>.
\<close>

definition time_unit_conv :: "real \<Rightarrow> string \<Rightarrow> string \<Rightarrow> real \<Rightarrow> error + real" where
  "time_unit_conv time units_from units_to yc =
     (case seconds_per_unit yc units_from of
        None \<Rightarrow> Inl InvalidUnit
      | Some a \<Rightarrow>
          (case seconds_per_unit yc units_to of
             None \<Rightarrow> Inl InvalidUnit
           | Some b \<Rightarrow> if b = 0 then Inl FloatDivideByZero else Inr (time * a / b)))"

section \<open>The Radionuclide class\<close>

definition dict_getitem :: "('k \<rightharpoonup> 'v) \<Rightarrow> 'k \<Rightarrow> error + 'v" where
  "dict_getitem m k = (case m k of None \<Rightarrow> Inl KeyError | Some v \<Rightarrow> Inr v)"

definition list_getitem :: "'a list \<Rightarrow> nat \<Rightarrow> error + 'a" where
  "list_getitem xs i = (if i < length xs then Inr (xs ! i) else Inl IndexError)"

text \<open>\<^verbatim>\<open>table[data.radionuclide_dict[name]]\<close>: the key is looked up first, then the index.\<close>

definition dataset_entry :: "DecayData \<Rightarrow> 'a list \<Rightarrow> string \<Rightarrow> error + 'a" where
  "dataset_entry d table name =
     (case dict_getitem (radionuclide_dict d) name of
        Inl e \<Rightarrow> Inl e
      | Inr i \<Rightarrow> list_getitem table i)"

text \<open>
  \<^verbatim>\<open>Radionuclide.__init__\<close>, statement by statement. A raise returns the error together
  with the attributes assigned so far.
\<close>

definition Radionuclide_init :: "string \<Rightarrow> DecayData \<Rightarrow> (error \<times> attrs) + Radionuclide" where
  "Radionuclide_init raw d =
     (case parse_radionuclide raw (radionuclides d) (dataset d) of
        Inl e \<Rightarrow> Inl (e, no_attrs)
      | Inr name \<Rightarrow>
          let self1 = no_attrs\<lparr>attr_radionuclide := Some name\<rparr> in
          (case dataset_entry d (decay_consts d) name of
             Inl e \<Rightarrow> Inl (e, self1)
           | Inr dc \<Rightarrow>
               let self2 = self1\<lparr>attr_decay_constant := Some dc\<rparr> in
               (case dataset_entry d (prog_bfs_modes d) name of
                  Inl e \<Rightarrow> Inl (e, self2)
                | Inr pbm \<Rightarrow>
                    Inr \<lparr>radionuclide = name, decay_constant = dc,
                         prog_bf_mode = pbm, data = d\<rparr>)))"

definition half_life :: "Radionuclide \<Rightarrow> string \<Rightarrow> error + real" where
  "half_life self units =
     (case (if units = ''s'' then Inr 1
            else time_unit_conv 1 ''s'' units (year_conv (data self))) of
        Inl e \<Rightarrow> Inl e
      | Inr conv \<Rightarrow>
          if decay_constant self = 0 then Inl FloatDivideByZero
          else Inr (conv * ln2 (data self) / decay_constant self))"

definition progeny :: "Radionuclide \<Rightarrow> string list" where
  "progeny self = map fst (prog_bf_mode self)"

definition branching_fractions :: "Radionuclide \<Rightarrow> real list" where
  "branching_fractions self = map (\<lambda>bf_mode. fst bf_mode) (map snd (prog_bf_mode self))"

definition decay_modes :: "Radionuclide \<Rightarrow> string list" where
  "decay_modes self = map (\<lambda>bf_mode. snd bf_mode) (map snd (prog_bf_mode self))"

definition Radionuclide_repr :: "Radionuclide \<Rightarrow> string" where
  "Radionuclide_repr self =
     ''Radionuclide: '' @ radionuclide self @ '', Decay dataset: '' @ dataset (data self)"


section \<open>Inventories and the decay-chain solver\<close>

text \<open>
  Modelled from the spec: the \<^verbatim>\<open>Inventory\<close> class (\<^verbatim>\<open>radioactivedecay/inventory.py\<close>),
  which is not among the sources. Section 3 of the specification: an inventory holds
  \<open>contents\<close>, a dictionary from canonical nuclide identifiers to quantities, and a reference
  to its dataset. The dictionary keeps its insertion order, so it is an association list.
\<close>

type_synonym contents_dict = "(string \<times> real) list"

record Inventory =
  contents :: contents_dict
  inv_data :: DecayData

text \<open>
  Modelled from the spec: the operation \<open>add\<close> of section 4.4, which is not among the
  sources: for each nuclide of the given mapping the quantity is summed onto the existing
  value, and a new key is inserted when there is none.
\<close>

fun acc_add :: "contents_dict \<Rightarrow> string \<Rightarrow> real \<Rightarrow> contents_dict" where
  "acc_add [] k v = [(k, v)]"
| "acc_add ((k', w) # rest) k v =
     (if k' = k then (k', w + v) # rest else (k', w) # acc_add rest k v)"

definition add_dictionaries :: "contents_dict \<Rightarrow> contents_dict \<Rightarrow> contents_dict" where
  "add_dictionaries a b = fold (\<lambda>(k, v) acc. acc_add acc k v) b a"

text \<open>
  Modelled from the spec: the operator \<open>+\<close> of section 4.4, which is not among the sources:
  the contents are combined by \<open>add\<close>, and operands whose dataset identifiers differ fail
  with \<open>IncompatibleDataset\<close>.
\<close>

definition Inventory_plus :: "Inventory \<Rightarrow> Inventory \<Rightarrow> error + Inventory" where
  "Inventory_plus a b =
     (if dataset (inv_data a) \<noteq> dataset (inv_data b) then Inl IncompatibleDataset
      else Inr \<lparr>contents = add_dictionaries (contents a) (contents b), inv_data = inv_data a\<rparr>)"

text \<open>
  Modelled from the spec: the solver's reads of the dataset (section 3), which are not
  among the sources. The dataset is validated before the solver sees it (section 6); a
  nuclide without an entry reads as stable: decay constant zero, no progeny.
\<close>

definition decay_const_of :: "DecayData \<Rightarrow> string \<Rightarrow> real" where
  "decay_const_of d x =
     (case dataset_entry d (decay_consts d) x of Inr l \<Rightarrow> l | Inl _ \<Rightarrow> 0)"

definition progeny_of :: "DecayData \<Rightarrow> string \<Rightarrow> prog_dict" where
  "progeny_of d x =
     (case dataset_entry d (prog_bfs_modes d) x of Inr p \<Rightarrow> p | Inl _ \<Rightarrow> [])"

text \<open>
  Modelled from the spec: the path enumeration of section 4.5, which is not among the
  sources. From a nuclide the enumeration follows the progeny relation depth first; every
  path, the one-node path included, is returned as its last nuclide, the product of the
  branching fractions along it and the decay constants of its nuclides in path order. The
  depth is bounded: \<open>chains_from\<close> allows as many edges as the dataset has nuclides, which no
  path of an acyclic dataset reaches.
\<close>

type_synonym chain = "string \<times> real \<times> real list"

fun chains :: "DecayData \<Rightarrow> nat \<Rightarrow> string \<Rightarrow> real \<Rightarrow> real list \<Rightarrow> chain list" where
  "chains d 0 x bp lams = [(x, bp, lams @ [decay_const_of d x])]"
| "chains d (Suc depth) x bp lams =
     (x, bp, lams @ [decay_const_of d x]) #
     concat (map (\<lambda>(y, bf, mode). chains d depth y (bp * bf) (lams @ [decay_const_of d x]))
                 (progeny_of d x))"

definition chains_from :: "DecayData \<Rightarrow> string \<Rightarrow> chain list" where
  "chains_from d r = chains d (length (radionuclides d)) r 1 []"

text \<open>The last nuclides of the enumerated paths that leave the starting nuclide.\<close>

definition descendants :: "DecayData \<Rightarrow> string \<Rightarrow> string list" where
  "descendants d r = map fst (tl (chains_from d r))"

text \<open>
  Modelled from the spec: the closed form of section 4.5, which is not among the sources.
  For the decay constants \<open>\<lambda>0..\<lambda>k\<close> of a path the sum is
  \<open>\<Sum>m. exp (-\<lambda>m t) / \<Prod>p\<noteq>m. (\<lambda>p - \<lambda>m)\<close>.
\<close>

definition bateman_sum :: "real list \<Rightarrow> real \<Rightarrow> real" where
  "bateman_sum lams t =
     sum_list (map (\<lambda>m. exp (- (lams ! m) * t) /
                        prod_list (map (\<lambda>p. lams ! p - lams ! m)
                                       (filter (\<lambda>p. p \<noteq> m) [0..<length lams])))
                   [0..<length lams])"

text \<open>
  Modelled from the spec: the degenerate case of section 4.5, which is not among the
  sources. Two decay constants of a path collide when they are equal or within a tolerance
  (\<open>tol = 0\<close> is exact equality); the colliding terms are then replaced by their limiting
  form. The specification names neither the tolerance nor a formula for the limiting form,
  so both are parameters.
\<close>

definition degenerate :: "real \<Rightarrow> real list \<Rightarrow> bool" where
  "degenerate tol lams =
     list_ex (\<lambda>i. list_ex (\<lambda>j. \<bar>lams ! i - lams ! j\<bar> \<le> tol) [Suc i..<length lams])
             [0..<length lams]"

definition time_factor ::
    "real \<Rightarrow> (real list \<Rightarrow> real \<Rightarrow> real) \<Rightarrow> real list \<Rightarrow> real \<Rightarrow> real" where
  "time_factor tol limiting_form lams t =
     (if degenerate tol lams then limiting_form lams t else bateman_sum lams t)"

text \<open>
  Modelled from the spec: the contribution of one path (section 4.5), which is not among
  the sources: the path coefficient \<open>N0 * \<Prod>b * \<Prod>(\<lambda>0..\<lambda>(k-1))\<close> times the closed-form sum.
\<close>

definition path_quantity ::
    "real \<Rightarrow> (real list \<Rightarrow> real \<Rightarrow> real) \<Rightarrow> real \<Rightarrow> real \<Rightarrow> chain \<Rightarrow> real" where
  "path_quantity tol limiting_form t N0 ch =
     (case ch of (x, bp, lams) \<Rightarrow>
        N0 * bp * prod_list (butlast lams) * time_factor tol limiting_form lams t)"

text \<open>
  Modelled from the spec: \<^verbatim>\<open>Inventory.decay\<close> (section 4.5), which is not among the
  sources. Every nuclide of the inventory is expanded into its paths, and the contribution
  of each path is accumulated on the path's last nuclide in one result dictionary, which
  starts empty. \<open>Inventory_decay\<close> first converts the elapsed time to seconds.
\<close>

definition decay_root ::
    "DecayData \<Rightarrow> real \<Rightarrow> (real list \<Rightarrow> real \<Rightarrow> real) \<Rightarrow> real \<Rightarrow> string \<times> real
      \<Rightarrow> contents_dict \<Rightarrow> contents_dict" where
  "decay_root d tol limiting_form t item acc =
     (case item of (r, N0) \<Rightarrow>
        fold (\<lambda>ch acc. acc_add acc (fst ch) (path_quantity tol limiting_form t N0 ch))
             (chains_from d r) acc)"

definition decay_contents ::
    "DecayData \<Rightarrow> real \<Rightarrow> (real list \<Rightarrow> real \<Rightarrow> real) \<Rightarrow> real \<Rightarrow> contents_dict
      \<Rightarrow> contents_dict" where
  "decay_contents d tol limiting_form t c = fold (decay_root d tol limiting_form t) c []"

definition decay_seconds ::
    "real \<Rightarrow> (real list \<Rightarrow> real \<Rightarrow> real) \<Rightarrow> Inventory \<Rightarrow> real \<Rightarrow> Inventory" where
  "decay_seconds tol limiting_form inventory t =
     \<lparr>contents = decay_contents (inv_data inventory) tol limiting_form t (contents inventory),
      inv_data = inv_data inventory\<rparr>"

definition Inventory_decay ::
    "real \<Rightarrow> (real list \<Rightarrow> real \<Rightarrow> real) \<Rightarrow> Inventory \<Rightarrow> real \<Rightarrow> string
      \<Rightarrow> error + Inventory" where
  "Inventory_decay tol limiting_form inventory time units =
     (case time_unit_conv time units ''s'' (year_conv (inv_data inventory)) of
        Inl e \<Rightarrow> Inl e
      | Inr secs \<Rightarrow> Inr (decay_seconds tol limiting_form inventory secs))"

text \<open>
  Equality of two contents dictionaries, as Python compares dictionaries: the same keys with
  the same values, whatever the insertion order.
\<close>

definition dict_eq :: "contents_dict \<Rightarrow> contents_dict \<Rightarrow> bool" where
  "dict_eq a b = (distinct (map fst a) \<and> distinct (map fst b) \<and> map_of a = map_of b)"

text \<open>
  Notions for the proofs about the accumulated dictionary: the quantity a dictionary holds
  for a nuclide (zero when it has no entry), the sum over the items of a dictionary with
  each quantity weighted by a function of its nuclide, the quantity that one unit of a
  starting nuclide yields on a nuclide, and the nuclides that the paths of an inventory
  reach.
\<close>

definition total :: "contents_dict \<Rightarrow> string \<Rightarrow> real" where
  "total m x = (case map_of m x of None \<Rightarrow> 0 | Some v \<Rightarrow> v)"

definition weighted :: "(string \<Rightarrow> real) \<Rightarrow> contents_dict \<Rightarrow> real" where
  "weighted g c = sum_list (map (\<lambda>(r, N0). N0 * g r) c)"

definition yield ::
    "DecayData \<Rightarrow> real \<Rightarrow> (real list \<Rightarrow> real \<Rightarrow> real) \<Rightarrow> real \<Rightarrow> string \<Rightarrow> string \<Rightarrow> real" where
  "yield d tol lf t r x =
     sum_list (map (path_quantity tol lf t 1) (filter (\<lambda>ch. fst ch = x) (chains_from d r)))"

definition reached :: "DecayData \<Rightarrow> contents_dict \<Rightarrow> string set" where
  "reached d c = (\<Union>r \<in> fst ` set c. fst ` set (chains_from d r))"

section \<open>An example dataset\<close>

definition H3_decay_const :: real where
  "H3_decay_const = ln 2 / (1232 / 100 * (3652422 / 10000 * 86400))"

definition example_data :: DecayData where
  "example_data =
     \<lparr>dataset = ''icrp107'',
      radionuclides = [''H-3'', ''K-40'', ''Ca-40'', ''Ar-40''],
      radionuclide_dict = map_of [(''H-3'', 0), (''K-40'', 1), (''Ca-40'', 2), (''Ar-40'', 3)],
      decay_consts = [H3_decay_const, 1 / 10 ^ 17, 0, 0],
      prog_bfs_modes =
        [[],
         [(''Ca-40'', 8914 / 10000, ''b-''), (''Ar-40'', 1086 / 10000, ''b+ & EC'')],
         [], []],
      year_conv = 3652422 / 10000,
      ln2 = ln 2\<rparr>"

definition example_K40 :: Radionuclide where
  "example_K40 =
     \<lparr>radionuclide = ''K-40'', decay_constant = 1 / 10 ^ 17,
      prog_bf_mode = [(''Ca-40'', 8914 / 10000, ''b-''), (''Ar-40'', 1086 / 10000, ''b+ & EC'')],
      data = example_data\<rparr>"

definition example_H3 :: Radionuclide where
  "example_H3 =
     \<lparr>radionuclide = ''H-3'', decay_constant = H3_decay_const,
      prog_bf_mode = [], data = example_data\<rparr>"

definition example_inv_a :: Inventory where
  "example_inv_a = \<lparr>contents = [(''K-40'', 1)], inv_data = example_data\<rparr>"

definition example_inv_b :: Inventory where
  "example_inv_b = \<lparr>contents = [(''H-3'', 2), (''K-40'', 3)], inv_data = example_data\<rparr>"

section \<open>Identifier parsing: basic facts\<close>

lemma parse_radionuclide_member:
  "parse_radionuclide raw ns nm = Inr c \<Longrightarrow> c \<in> set ns"
  by (auto simp: parse_radionuclide_def split: option.splits if_splits)

lemma example_parse_K40:
  "parse_radionuclide ''K40'' (radionuclides example_data) (dataset example_data) = Inr ''K-40''"
  by (simp add: parse_radionuclide_def split_identifier_def split_symbol_first_def
      valid_symbol_def valid_mass_def valid_suffix_def canonical_form_def
      is_digit_def is_letter_def is_upper_def is_lower_def example_data_def)

lemma example_init_K40: "Radionuclide_init ''K40'' example_data = Inr example_K40"
  unfolding Radionuclide_init_def example_parse_K40
  by (simp add: dataset_entry_def dict_getitem_def list_getitem_def example_data_def
      example_K40_def)

lemma example_parse_H4:
  "parse_radionuclide ''H4'' (radionuclides example_data) (dataset example_data)
     = Inl InvalidIdentifier"
  by (simp add: parse_radionuclide_def split_identifier_def split_symbol_first_def
      valid_symbol_def valid_mass_def valid_suffix_def canonical_form_def
      is_digit_def is_letter_def is_upper_def is_lower_def example_data_def)

section \<open>Construction\<close>

lemma init_success:
  assumes "Radionuclide_init raw d = Inr self"
  shows "parse_radionuclide raw (radionuclides d) (dataset d) = Inr (radionuclide self)"
    and "dataset_entry d (decay_consts d) (radionuclide self) = Inr (decay_constant self)"
    and "dataset_entry d (prog_bfs_modes d) (radionuclide self) = Inr (prog_bf_mode self)"
    and "data self = d"
  using assms
  by (auto simp: Radionuclide_init_def Let_def split: sum.splits)

lemma dataset_entry_Inr:
  "dataset_entry d table name = Inr v \<longleftrightarrow>
     (\<exists>i. radionuclide_dict d name = Some i \<and> i < length table \<and> v = table ! i)"
  by (auto simp: dataset_entry_def dict_getitem_def list_getitem_def split: option.splits)

text \<open>
  Claim C10. A constructed Radionuclide stores the canonicalized constructor argument, which
  is in the dataset's nuclide list; its decay constant and its progeny dictionary are the
  dataset's entries at the index of that identifier, and its dataset is the one given. When
  the argument does not canonicalize to a nuclide of the dataset, the constructor raises
  with no attribute assigned.
\<close>

theorem init_invariant:
  "(Radionuclide_init raw d = Inr self \<longrightarrow>
      parse_radionuclide raw (radionuclides d) (dataset d) = Inr (radionuclide self)
    \<and> radionuclide self \<in> set (radionuclides d)
    \<and> (\<exists>i. radionuclide_dict d (radionuclide self) = Some i
          \<and> i < length (decay_consts d) \<and> decay_constant self = decay_consts d ! i
          \<and> i < length (prog_bfs_modes d) \<and> prog_bf_mode self = prog_bfs_modes d ! i)
    \<and> data self = d)
   \<and> ((\<forall>c. parse_radionuclide raw (radionuclides d) (dataset d) \<noteq> Inr c) \<longrightarrow>
        Radionuclide_init raw d = Inl (InvalidIdentifier, no_attrs))"
proof (intro conjI impI)
  assume a: "Radionuclide_init raw d = Inr self"
  show "parse_radionuclide raw (radionuclides d) (dataset d) = Inr (radionuclide self)"
    by (rule init_success(1)[OF a])
  then show "radionuclide self \<in> set (radionuclides d)"
    by (rule parse_radionuclide_member)
  show "data self = d" by (rule init_success(4)[OF a])
  from init_success(2,3)[OF a]
  show "\<exists>i. radionuclide_dict d (radionuclide self) = Some i
          \<and> i < length (decay_consts d) \<and> decay_constant self = decay_consts d ! i
          \<and> i < length (prog_bfs_modes d) \<and> prog_bf_mode self = prog_bfs_modes d ! i"
    by (auto simp: dataset_entry_Inr)
next
  assume "\<forall>c. parse_radionuclide raw (radionuclides d) (dataset d) \<noteq> Inr c"
  then show "Radionuclide_init raw d = Inl (InvalidIdentifier, no_attrs)"
    by (auto simp: Radionuclide_init_def parse_radionuclide_def split: option.splits if_splits)
qed

theorem init_invariant_witness:
  "Radionuclide_init ''K40'' example_data = Inr example_K40
   \<and> radionuclide example_K40 \<in> set (radionuclides example_data)
   \<and> (\<forall>c. parse_radionuclide ''H4'' (radionuclides example_data) (dataset example_data)
            \<noteq> Inr c)
   \<and> Radionuclide_init ''H4'' example_data = Inl (InvalidIdentifier, no_attrs)"
proof -
  have h: "\<forall>c. parse_radionuclide ''H4'' (radionuclides example_data) (dataset example_data)
            \<noteq> Inr c"
    by (simp add: example_parse_H4)
  from init_invariant[of "''K40''" example_data example_K40] example_init_K40
  have "radionuclide example_K40 \<in> set (radionuclides example_data)" by blast
  moreover from init_invariant[of "''H4''" example_data example_K40] h
  have "Radionuclide_init ''H4'' example_data = Inl (InvalidIdentifier, no_attrs)" by blast
  ultimately show ?thesis using example_init_K40 h by blast
qed

section \<open>Representation\<close>

text \<open>
  Claim C9. The representation of a Radionuclide is the text \<open>Radionuclide: \<close>, the
  canonical identifier it is bound to, the text \<open>, Decay dataset: \<close> and the identifier of
  its dataset.
\<close>

theorem repr_format:
  assumes "Radionuclide_init raw d = Inr self"
  shows "parse_radionuclide raw (radionuclides d) (dataset d) = Inr (radionuclide self)
       \<and> data self = d
       \<and> Radionuclide_repr self =
           ''Radionuclide: '' @ radionuclide self @ '', Decay dataset: '' @ dataset d"
  using init_success(1,4)[OF assms] by (simp add: Radionuclide_repr_def)

theorem repr_format_witness:
  "Radionuclide_init ''K40'' example_data = Inr example_K40
   \<and> Radionuclide_repr example_K40 = ''Radionuclide: K-40, Decay dataset: icrp107''"
proof -
  from repr_format[OF example_init_K40]
  have "Radionuclide_repr example_K40 =
      ''Radionuclide: '' @ radionuclide example_K40 @ '', Decay dataset: '' @ dataset example_data"
    by blast
  moreover have "radionuclide example_K40 = ''K-40''" by (simp add: example_K40_def)
  moreover have "dataset example_data = ''icrp107''" by (simp add: example_data_def)
  ultimately show ?thesis using example_init_K40 by simp
qed

section \<open>Progeny, branching fractions and decay modes\<close>

text \<open>
  Claim C5. The three accessors return lists of the same length, and position by position
  the branching fraction and the decay mode are the ones that the dataset's progeny
  dictionary of this nuclide records for the progeny at that position, in the stored order.
\<close>

theorem progeny_aligned:
  assumes "Radionuclide_init raw d = Inr self"
    and "distinct (map fst (prog_bf_mode self))"
  shows "dataset_entry d (prog_bfs_modes d) (radionuclide self) = Inr (prog_bf_mode self)
       \<and> progeny self = map fst (prog_bf_mode self)
       \<and> length (branching_fractions self) = length (progeny self)
       \<and> length (decay_modes self) = length (progeny self)
       \<and> (\<forall>j<length (progeny self).
            prog_bf_mode self ! j =
              (progeny self ! j, branching_fractions self ! j, decay_modes self ! j)
          \<and> map_of (prog_bf_mode self) (progeny self ! j) =
              Some (branching_fractions self ! j, decay_modes self ! j))"
proof -
  have "map_of (prog_bf_mode self) (progeny self ! j) =
          Some (branching_fractions self ! j, decay_modes self ! j)"
    if "j < length (progeny self)" for j
  proof -
    from that have j: "j < length (prog_bf_mode self)" by (simp add: progeny_def)
    then have "prog_bf_mode self ! j \<in> set (prog_bf_mode self)" by simp
    moreover have "prog_bf_mode self ! j =
        (progeny self ! j, branching_fractions self ! j, decay_modes self ! j)"
      using j by (simp add: progeny_def branching_fractions_def decay_modes_def)
    ultimately show ?thesis using assms(2) by (metis map_of_is_SomeI)
  qed
  then show ?thesis
    using init_success(3)[OF assms(1)]
    by (simp add: progeny_def branching_fractions_def decay_modes_def)
qed

theorem progeny_aligned_witness:
  "Radionuclide_init ''K40'' example_data = Inr example_K40
   \<and> distinct (map fst (prog_bf_mode example_K40))
   \<and> progeny example_K40 = [''Ca-40'', ''Ar-40'']
   \<and> branching_fractions example_K40 = [8914 / 10000, 1086 / 10000]
   \<and> decay_modes example_K40 = [''b-'', ''b+ & EC'']
   \<and> map_of (prog_bf_mode example_K40) ''Ca-40'' = Some (8914 / 10000, ''b-'')
   \<and> map_of (prog_bf_mode example_K40) ''Ar-40'' = Some (1086 / 10000, ''b+ & EC'')"
proof -
  have d: "distinct (map fst (prog_bf_mode example_K40))"
    by (simp add: example_K40_def)
  have p: "progeny example_K40 = [''Ca-40'', ''Ar-40'']"
    by (simp add: progeny_def example_K40_def)
  have b: "branching_fractions example_K40 = [8914 / 10000, 1086 / 10000]"
    by (simp add: branching_fractions_def example_K40_def)
  have m: "decay_modes example_K40 = [''b-'', ''b+ & EC'']"
    by (simp add: decay_modes_def example_K40_def)
  from progeny_aligned[OF example_init_K40 d]
  have al: "\<forall>j<length (progeny example_K40).
          map_of (prog_bf_mode example_K40) (progeny example_K40 ! j) =
            Some (branching_fractions example_K40 ! j, decay_modes example_K40 ! j)"
    by blast
  from al[rule_format, of 0]
  have "map_of (prog_bf_mode example_K40) ''Ca-40'' = Some (8914 / 10000, ''b-'')"
    unfolding p b m by simp
  moreover from al[rule_format, of 1]
  have "map_of (prog_bf_mode example_K40) ''Ar-40'' = Some (1086 / 10000, ''b+ & EC'')"
    unfolding p b m by simp
  ultimately show ?thesis using example_init_K40 d p b m by blast
qed

section \<open>Half-life\<close>

lemma seconds_per_unit_recognized:
  "recognized_unit u \<longleftrightarrow> (\<exists>b. seconds_per_unit yc u = Some b)"
  by (auto simp: recognized_unit_def seconds_per_unit_def map_of_eq_None_iff
      split: option.splits)
     (metis map_of_eq_None_iff not_None_eq)+

lemma seconds_per_unit_pos:
  assumes "seconds_per_unit yc u = Some b" and "0 < yc"
  shows "0 < b"
proof (cases "map_of second_units u")
  case (Some c)
  then have "(u, c) \<in> set second_units" by (rule map_of_SomeD)
  then have "0 < c" by (auto simp: second_units_def)
  with Some assms show ?thesis by (simp add: seconds_per_unit_def)
next
  case None
  with assms obtain k where k: "map_of year_units u = Some k" and b: "b = k * (yc * 86400)"
    by (auto simp: seconds_per_unit_def split: option.splits)
  from k have "(u, k) \<in> set year_units" by (rule map_of_SomeD)
  then have "0 < k" by (auto simp: year_units_def)
  with b assms(2) show ?thesis by simp
qed

lemma seconds_per_unit_nonzero:
  assumes "seconds_per_unit yc u = Some b" and "yc \<noteq> 0"
  shows "b \<noteq> 0"
proof (cases "map_of second_units u")
  case (Some c)
  then have "(u, c) \<in> set second_units" by (rule map_of_SomeD)
  then have "c \<noteq> 0" by (auto simp: second_units_def)
  with Some assms show ?thesis by (simp add: seconds_per_unit_def)
next
  case None
  with assms obtain k where k: "map_of year_units u = Some k" and b: "b = k * (yc * 86400)"
    by (auto simp: seconds_per_unit_def split: option.splits)
  from k have "(u, k) \<in> set year_units" by (rule map_of_SomeD)
  then have "k \<noteq> 0" by (auto simp: year_units_def)
  with b assms(2) show ?thesis by simp
qed

lemma seconds_per_unit_s: "seconds_per_unit yc ''s'' = Some 1"
  by (simp add: seconds_per_unit_def second_units_def)

text \<open>
  Claim C1. For a positive decay constant and a recognized unit, \<open>half_life\<close> returns
  \<open>ln 2 / decay_constant\<close> seconds converted into the unit by the unit converter, and for
  the unit \<open>s\<close> it returns \<open>ln 2 / decay_constant\<close> itself. The dataset's attribute
  \<open>ln2\<close> is taken to hold \<open>ln 2\<close>.
\<close>

theorem half_life_converts:
  assumes "0 < decay_constant self" and "recognized_unit u"
    and "0 < year_conv (data self)" and "ln2 (data self) = ln 2"
  shows "(\<exists>b. seconds_per_unit (year_conv (data self)) u = Some b \<and> 0 < b
            \<and> half_life self u = Inr (ln 2 / decay_constant self / b))
       \<and> half_life self u =
           time_unit_conv (ln 2 / decay_constant self) ''s'' u (year_conv (data self))
       \<and> half_life self ''s'' = Inr (ln 2 / decay_constant self)"
proof -
  let ?yc = "year_conv (data self)"
  from assms(2) obtain b where b: "seconds_per_unit ?yc u = Some b"
    using seconds_per_unit_recognized by blast
  have bpos: "0 < b" by (rule seconds_per_unit_pos[OF b assms(3)])
  have conv: "time_unit_conv x ''s'' u ?yc = Inr (x / b)" for x
    using b bpos by (simp add: time_unit_conv_def seconds_per_unit_s)
  have s: "half_life self ''s'' = Inr (ln 2 / decay_constant self)"
    using assms(1,4) by (simp add: half_life_def)
  have "half_life self u = Inr (ln 2 / decay_constant self / b)"
  proof (cases "u = ''s''")
    case True
    with b have "b = 1" by (simp add: seconds_per_unit_s)
    with True s show ?thesis by simp
  next
    case False
    then show ?thesis
      using assms(1,4) by (simp add: half_life_def conv)
  qed
  with b bpos conv s show ?thesis by simp
qed

theorem half_life_converts_witness:
  "0 < decay_constant example_H3 \<and> recognized_unit ''y''
   \<and> 0 < year_conv (data example_H3) \<and> ln2 (data example_H3) = ln 2
   \<and> half_life example_H3 ''y'' = Inr (1232 / 100)
   \<and> half_life example_H3 ''s'' = Inr (ln 2 / H3_decay_const)"
proof -
  have a1: "0 < decay_constant example_H3"
    by (simp add: example_H3_def H3_decay_const_def)
  have a2: "recognized_unit ''y''"
    by (simp add: recognized_unit_def year_units_def)
  have a3: "0 < year_conv (data example_H3)"
    by (simp add: example_H3_def example_data_def)
  have a4: "ln2 (data example_H3) = ln 2"
    by (simp add: example_H3_def example_data_def)
  have spu: "seconds_per_unit (year_conv (data example_H3)) ''y'' = Some (3652422 / 10000 * 86400)"
    by (simp add: seconds_per_unit_def second_units_def year_units_def example_H3_def
        example_data_def)
  have dc: "decay_constant example_H3 = H3_decay_const" by (simp add: example_H3_def)
  from half_life_converts[OF a1 a2 a3 a4]
  obtain b where b: "seconds_per_unit (year_conv (data example_H3)) ''y'' = Some b"
    and hy: "half_life example_H3 ''y'' = Inr (ln 2 / decay_constant example_H3 / b)"
    and hs: "half_life example_H3 ''s'' = Inr (ln 2 / decay_constant example_H3)"
    by blast
  from b spu have "b = 3652422 / 10000 * 86400" by simp
  with hy hs
  have "half_life example_H3 ''y'' = Inr (ln 2 / H3_decay_const / (3652422 / 10000 * 86400))"
    and "half_life example_H3 ''s'' = Inr (ln 2 / H3_decay_const)"
    by (simp_all only: dc)
  moreover have "ln 2 / H3_decay_const / (3652422 / 10000 * 86400) = (1232 / 100 :: real)"
    by (simp add: H3_decay_const_def)
  ultimately show ?thesis using a1 a2 a3 a4 by simp
qed

text \<open>
  A decay constant of zero: no branch of \<open>half_life\<close> guards the quotient, so for a
  recognized unit the division is evaluated with divisor zero, and no finite value is
  returned.
\<close>

lemma half_life_stable:
  assumes "decay_constant self = 0"
  shows "\<forall>h. half_life self u \<noteq> Inr h"
    and "recognized_unit u \<Longrightarrow> year_conv (data self) \<noteq> 0 \<Longrightarrow>
           half_life self u = Inl FloatDivideByZero"
proof -
  show "\<forall>h. half_life self u \<noteq> Inr h"
    using assms by (simp add: half_life_def split: sum.splits)
next
  assume r: "recognized_unit u" and y: "year_conv (data self) \<noteq> 0"
  then obtain b where b: "seconds_per_unit (year_conv (data self)) u = Some b"
    using seconds_per_unit_recognized by blast
  then have "b \<noteq> 0" using y by (rule seconds_per_unit_nonzero)
  with b assms show "half_life self u = Inl FloatDivideByZero"
    by (simp add: half_life_def time_unit_conv_def seconds_per_unit_s)
qed

section \<open>Canonicalization of identifiers\<close>

lemma upper_not_digit: "is_upper c \<Longrightarrow> \<not> is_digit c"
  by (auto simp: is_upper_def is_digit_def)

lemma lower_not_digit: "is_lower c \<Longrightarrow> \<not> is_digit c"
  by (auto simp: is_lower_def is_digit_def)

lemma letter_not_digit: "is_letter c \<Longrightarrow> \<not> is_digit c"
  by (auto simp: is_letter_def upper_not_digit lower_not_digit)

lemma hyphen_class: "\<not> is_letter CHR ''-''" "\<not> is_digit CHR ''-''"
  by (simp_all add: is_letter_def is_upper_def is_lower_def is_digit_def)

lemma valid_symbol_letters:
  assumes "valid_symbol el"
  shows "el \<noteq> []" and "\<forall>c\<in>set el. is_letter c" and "is_upper (hd el)"
  using assms
  by (auto simp: valid_symbol_def is_letter_def split: list.splits)

lemma valid_mass_digits:
  assumes "valid_mass mass"
  shows "mass \<noteq> []" and "\<forall>c\<in>set mass. is_digit c" and "is_digit (hd mass)"
  using assms by (cases mass; auto simp: valid_mass_def list_all_iff)+

lemma valid_suffix_cases:
  assumes "valid_suffix suf"
  shows "\<forall>c\<in>set suf. \<not> is_digit c" and "\<forall>c\<in>set suf. is_lower c"
    and "takeWhile is_digit suf = []" and "dropWhile is_digit suf = suf"
  using assms
  by (auto simp: valid_suffix_def is_digit_def is_lower_def)

lemma span_prefix:
  assumes "\<forall>c\<in>set xs. P c" and "ys = [] \<or> \<not> P (hd ys)"
  shows "takeWhile P (xs @ ys) = xs" and "dropWhile P (xs @ ys) = ys"
  using assms by (cases ys; simp)+

lemma span_mass_suffix:
  assumes "valid_mass mass" "valid_suffix suf"
  shows "takeWhile is_digit (mass @ suf) = mass" and "dropWhile is_digit (mass @ suf) = suf"
proof -
  have "suf = [] \<or> \<not> is_digit (hd suf)"
    using valid_suffix_cases(1)[OF assms(2)] by (cases suf) auto
  with valid_mass_digits(2)[OF assms(1)]
  show "takeWhile is_digit (mass @ suf) = mass" and "dropWhile is_digit (mass @ suf) = suf"
    by (rule span_prefix)+
qed

lemma split_symbol_first_hyphen:
  assumes "valid_symbol el" "valid_mass mass" "valid_suffix suf"
  shows "split_symbol_first (el @ CHR ''-'' # mass @ suf) = Some (el, mass, suf)"
proof -
  have h: "CHR ''-'' # mass @ suf = [] \<or> \<not> is_letter (hd (CHR ''-'' # mass @ suf))"
    using hyphen_class by simp
  have 1: "takeWhile is_letter (el @ CHR ''-'' # mass @ suf) = el"
    and 2: "dropWhile is_letter (el @ CHR ''-'' # mass @ suf) = CHR ''-'' # mass @ suf"
    using valid_symbol_letters(2)[OF assms(1)] h by (rule span_prefix)+
  show ?thesis
    using assms
    by (simp add: split_symbol_first_def Let_def 1 2 span_mass_suffix[OF assms(2,3)]
        del: takeWhile_append2 dropWhile_append2 dropWhile_append3)
qed

lemma split_symbol_first_plain:
  assumes "valid_symbol el" "valid_mass mass" "valid_suffix suf"
  shows "split_symbol_first (el @ mass @ suf) = Some (el, mass, suf)"
proof -
  obtain c cs where cs: "mass = c # cs" and dc: "is_digit c"
    using valid_mass_digits[OF assms(2)] by (cases mass) auto
  have nl: "\<not> is_letter c" using dc letter_not_digit by blast
  have nh: "c \<noteq> CHR ''-''" using dc hyphen_class by blast
  have h: "mass @ suf = [] \<or> \<not> is_letter (hd (mass @ suf))"
    using nl by (simp add: cs)
  have 1: "takeWhile is_letter (el @ mass @ suf) = el"
    and 2: "dropWhile is_letter (el @ mass @ suf) = mass @ suf"
    using valid_symbol_letters(2)[OF assms(1)] h by (rule span_prefix)+
  have 5: "(case mass @ suf of [] \<Rightarrow> mass @ suf
                 | c # cs \<Rightarrow> if c = CHR ''-'' then cs else mass @ suf) = mass @ suf"
    using nh by (simp add: cs)
  show ?thesis
    using assms
    by (simp add: split_symbol_first_def Let_def 1 2 5 span_mass_suffix[OF assms(2,3)]
        del: takeWhile_append2 dropWhile_append2 dropWhile_append3)
qed

lemma split_mass_first_layout:
  assumes "valid_symbol el" "valid_mass mass" "valid_suffix suf"
  shows "split_mass_first (mass @ suf @ el) = Some (el, mass, suf)"
proof -
  obtain a as where el: "el = a # as" and la: "is_letter a"
    using valid_symbol_letters[OF assms(1)] by (cases el) auto
  have "\<not> is_digit (hd (suf @ el))"
    using valid_suffix_cases(1)[OF assms(3)] letter_not_digit[OF la]
    by (cases suf) (auto simp: el)
  then have nd: "suf @ el = [] \<or> \<not> is_digit (hd (suf @ el))" by blast
  have 1: "takeWhile is_digit (mass @ suf @ el) = mass"
    and 2: "dropWhile is_digit (mass @ suf @ el) = suf @ el"
    using valid_mass_digits(2)[OF assms(2)] nd by (rule span_prefix)+
  show ?thesis
  proof (cases "suf = []")
    case True
    then show ?thesis
      using assms 1 2
      by (simp add: split_mass_first_def Let_def
          del: takeWhile_append2 dropWhile_append2 dropWhile_append3)
  next
    case False
    then obtain c where c: "suf = [c]" and lc: "is_lower c" and vc: "valid_suffix [c]"
      using assms(3) valid_suffix_cases(2)[OF assms(3)] by (auto simp: valid_suffix_def)
    have "\<not> is_upper c" using lc by (auto simp: is_lower_def is_upper_def)
    then have "\<not> valid_symbol (c # el)"
      by (auto simp: valid_symbol_def split: list.splits)
    then show ?thesis
      using assms c vc 1 2
      by (simp add: split_mass_first_def Let_def
          del: takeWhile_append2 dropWhile_append2 dropWhile_append3)
  qed
qed

lemma split_identifier_layouts:
  assumes "valid_symbol el" "valid_mass mass" "valid_suffix suf"
  shows "split_identifier (canonical_form el mass suf) = Some (el, mass, suf)"
    and "split_identifier (el @ mass @ suf) = Some (el, mass, suf)"
    and "split_identifier (mass @ suf @ el) = Some (el, mass, suf)"
proof -
  obtain a as where el: "el = a # as" and a: "\<not> is_digit a"
    using valid_symbol_letters[OF assms(1)] upper_not_digit by (cases el) auto
  obtain b bs where mass: "mass = b # bs" and b: "is_digit b"
    using valid_mass_digits[OF assms(2)] by (cases mass) auto
  show "split_identifier (canonical_form el mass suf) = Some (el, mass, suf)"
    using split_symbol_first_hyphen[OF assms] a
    by (simp add: split_identifier_def canonical_form_def el)
  show "split_identifier (el @ mass @ suf) = Some (el, mass, suf)"
    using split_symbol_first_plain[OF assms] a
    by (simp add: split_identifier_def el)
  show "split_identifier (mass @ suf @ el) = Some (el, mass, suf)"
    using split_mass_first_layout[OF assms] b
    by (simp add: split_identifier_def mass)
qed

lemma split_symbol_first_valid:
  "split_symbol_first raw = Some (el, mass, suf) \<Longrightarrow>
     valid_symbol el \<and> valid_mass mass \<and> valid_suffix suf"
  unfolding split_symbol_first_def Let_def
  by (simp split: if_splits)

lemma split_mass_first_valid:
  "split_mass_first raw = Some (el, mass, suf) \<Longrightarrow>
     valid_symbol el \<and> valid_mass mass \<and> valid_suffix suf"
  unfolding split_mass_first_def Let_def
  by (auto simp: valid_suffix_def split: if_splits list.splits)

lemma split_identifier_valid:
  assumes "split_identifier raw = Some (el, mass, suf)"
  shows "valid_symbol el \<and> valid_mass mass \<and> valid_suffix suf"
proof -
  from assms have "split_mass_first raw = Some (el, mass, suf)
      \<or> split_symbol_first raw = Some (el, mass, suf)"
    by (simp add: split_identifier_def split: list.splits if_splits)
  then show ?thesis
    using split_symbol_first_valid split_mass_first_valid by blast
qed

lemma parse_radionuclide_idempotent:
  assumes "parse_radionuclide raw ns nm = Inr c"
  shows "parse_radionuclide c ns nm' = Inr c"
proof -
  from assms obtain el mass suf where s: "split_identifier raw = Some (el, mass, suf)"
    and c: "c = canonical_form el mass suf" and m: "c \<in> set ns"
    by (auto simp: parse_radionuclide_def split: option.splits if_splits)
  from split_identifier_valid[OF s]
  have "split_identifier c = Some (el, mass, suf)"
    unfolding c by (simp add: split_identifier_layouts(1))
  with c m show ?thesis by (simp add: parse_radionuclide_def)
qed

text \<open>
  Claim C7. Canonicalization is idempotent, and the spellings of one nuclide converge: for a
  symbol, a mass number and a suffix whose canonical form \<open>Symbol-Mass[Suffix]\<close> is a nuclide
  of the dataset, the canonical form canonicalizes to itself, and the layouts
  \<open>SymbolMass[Suffix]\<close> and \<open>Mass[Suffix]Symbol\<close> canonicalize to it as well; whatever
  canonicalization returns is a fixed point.
\<close>

theorem canonicalize_roundtrip:
  assumes "valid_symbol el" and "valid_mass mass" and "valid_suffix suf"
    and "canonical_form el mass suf \<in> set ns"
  shows "parse_radionuclide (canonical_form el mass suf) ns nm = Inr (canonical_form el mass suf)
       \<and> parse_radionuclide (el @ mass @ suf) ns nm = Inr (canonical_form el mass suf)
       \<and> parse_radionuclide (mass @ suf @ el) ns nm = Inr (canonical_form el mass suf)
       \<and> (\<forall>raw c. parse_radionuclide raw ns nm = Inr c \<longrightarrow> parse_radionuclide c ns nm = Inr c)"
  using assms(4) split_identifier_layouts[OF assms(1-3)] parse_radionuclide_idempotent
  by (simp add: parse_radionuclide_def)

theorem canonicalize_roundtrip_witness:
  "valid_symbol ''H'' \<and> valid_mass ''3'' \<and> valid_suffix []
   \<and> canonical_form ''H'' ''3'' [] = ''H-3''
   \<and> ''H-3'' \<in> set (radionuclides example_data)
   \<and> parse_radionuclide ''H-3'' (radionuclides example_data) ''icrp107'' = Inr ''H-3''
   \<and> parse_radionuclide ''H3'' (radionuclides example_data) ''icrp107'' = Inr ''H-3''
   \<and> parse_radionuclide ''3H'' (radionuclides example_data) ''icrp107'' = Inr ''H-3''
   \<and> parse_radionuclide ''K40'' (radionuclides example_data) ''icrp107'' = Inr ''K-40''
   \<and> parse_radionuclide ''K-40'' (radionuclides example_data) ''icrp107'' = Inr ''K-40''"
proof -
  have v: "valid_symbol ''H''" "valid_mass ''3''" "valid_suffix []"
    by (simp_all add: valid_symbol_def valid_mass_def valid_suffix_def is_upper_def is_digit_def)
  have c: "canonical_form ''H'' ''3'' [] = ''H-3''" by (simp add: canonical_form_def)
  have m: "canonical_form ''H'' ''3'' [] \<in> set (radionuclides example_data)"
    by (simp add: canonical_form_def example_data_def)
  have k: "parse_radionuclide ''K40'' (radionuclides example_data) ''icrp107'' = Inr ''K-40''"
    using example_parse_K40 by (simp add: example_data_def)
  note t = canonicalize_roundtrip[OF v m, of "''icrp107''"]
  from t k have "parse_radionuclide ''K-40'' (radionuclides example_data) ''icrp107'' = Inr ''K-40''"
    by blast
  with t k v m show ?thesis by (simp add: c)
qed

section \<open>Unit conversion\<close>

lemma recognized_unit_None:
  "\<not> recognized_unit u \<longleftrightarrow> seconds_per_unit yc u = None"
  using seconds_per_unit_recognized[of u yc] by auto

text \<open>
  Claim C8. The conversion fails with \<open>InvalidUnit\<close> exactly when the unit converted from or
  the unit converted to is not a recognized token; for two recognized tokens (and a
  year length that is not zero) it succeeds and returns the value times the seconds per
  unit of the first, divided by the seconds per unit of the second.
\<close>

theorem time_unit_conv_errors:
  "(time_unit_conv v f t yc = Inl InvalidUnit \<longleftrightarrow> \<not> recognized_unit f \<or> \<not> recognized_unit t)
   \<and> (recognized_unit f \<and> recognized_unit t \<and> yc \<noteq> 0 \<longrightarrow>
        (\<exists>a b. seconds_per_unit yc f = Some a \<and> seconds_per_unit yc t = Some b \<and> b \<noteq> 0
             \<and> time_unit_conv v f t yc = Inr (v * a / b)))"
proof (intro conjI impI)
  show "time_unit_conv v f t yc = Inl InvalidUnit \<longleftrightarrow> \<not> recognized_unit f \<or> \<not> recognized_unit t"
    unfolding recognized_unit_None[of _ yc]
    by (auto simp: time_unit_conv_def split: option.splits)
next
  assume h: "recognized_unit f \<and> recognized_unit t \<and> yc \<noteq> 0"
  then obtain a b where a: "seconds_per_unit yc f = Some a" and b: "seconds_per_unit yc t = Some b"
    using seconds_per_unit_recognized by blast
  from b h have "b \<noteq> 0" by (auto dest: seconds_per_unit_nonzero)
  with a b show "\<exists>a b. seconds_per_unit yc f = Some a \<and> seconds_per_unit yc t = Some b \<and> b \<noteq> 0
             \<and> time_unit_conv v f t yc = Inr (v * a / b)"
    by (simp add: time_unit_conv_def)
qed

theorem time_unit_conv_errors_witness:
  "recognized_unit ''h'' \<and> recognized_unit ''d'' \<and> (36525 / 100 :: real) \<noteq> 0
   \<and> time_unit_conv 48 ''h'' ''d'' (36525 / 100) = Inr 2
   \<and> \<not> recognized_unit ''ty''
   \<and> time_unit_conv 1 ''ty'' ''y'' (36525 / 100) = Inl InvalidUnit
   \<and> time_unit_conv 1 ''y'' ''ty'' (36525 / 100) = Inl InvalidUnit"
proof -
  have rh: "recognized_unit ''h''" and rd: "recognized_unit ''d''"
    by (simp_all add: recognized_unit_def second_units_def)
  have nt: "\<not> recognized_unit ''ty''"
    by (simp add: recognized_unit_def second_units_def year_units_def)
  have sh: "seconds_per_unit (36525 / 100) ''h'' = Some 3600"
    and sd: "seconds_per_unit (36525 / 100) ''d'' = Some 86400"
    by (simp_all add: seconds_per_unit_def second_units_def)
  from time_unit_conv_errors[of 48 "''h''" "''d''" "36525 / 100"] rh rd
  obtain a b where "seconds_per_unit (36525 / 100) ''h'' = Some a"
    and "seconds_per_unit (36525 / 100) ''d'' = Some b"
    and "time_unit_conv 48 ''h'' ''d'' (36525 / 100) = Inr (48 * a / b)"
    by auto
  with sh sd have c: "time_unit_conv 48 ''h'' ''d'' (36525 / 100) = Inr 2" by simp
  from time_unit_conv_errors[of 1 "''ty''" "''y''" "36525 / 100"] nt
  have e1: "time_unit_conv 1 ''ty'' ''y'' (36525 / 100) = Inl InvalidUnit" by blast
  from time_unit_conv_errors[of 1 "''y''" "''ty''" "36525 / 100"] nt
  have e2: "time_unit_conv 1 ''y'' ''ty'' (36525 / 100) = Inl InvalidUnit" by blast
  from rh rd nt c e1 e2 show ?thesis by simp
qed

section \<open>Rebinding\<close>





section \<open>The accumulated dictionary\<close>

lemma map_of_total: "map_of m x = (if x \<in> fst ` set m then Some (total m x) else None)"
  by (auto simp: total_def map_of_eq_None_iff split: option.splits)

lemma keys_acc_add: "fst ` set (acc_add m k v) = insert k (fst ` set m)"
  by (induction m k v rule: acc_add.induct) auto

lemma total_acc_add: "total (acc_add m k v) x = total m x + (if x = k then v else 0)"
  by (induction m k v rule: acc_add.induct) (auto simp: total_def)

lemma distinct_acc_add:
  "distinct (map fst m) \<Longrightarrow> distinct (map fst (acc_add m k v))"
  by (induction m k v rule: acc_add.induct) (auto simp: keys_acc_add)


lemma fold_chain_total:
  "total (fold (\<lambda>ch acc. acc_add acc (fst ch) (q ch)) chs acc) x =
     total acc x + sum_list (map q (filter (\<lambda>ch. fst ch = x) chs))"
  by (induction chs arbitrary: acc) (auto simp: total_acc_add)

lemma fold_chain_keys:
  "fst ` set (fold (\<lambda>ch acc. acc_add acc (fst ch) (q ch)) chs acc) =
     fst ` set acc \<union> fst ` set chs"
  by (induction chs arbitrary: acc) (auto simp: keys_acc_add)

lemma fold_chain_distinct:
  "distinct (map fst acc) \<Longrightarrow>
     distinct (map fst (fold (\<lambda>ch acc. acc_add acc (fst ch) (q ch)) chs acc))"
  by (induction chs arbitrary: acc) (auto simp: distinct_acc_add)

lemma path_quantity_scale:
  "path_quantity tol lf t N0 ch = N0 * path_quantity tol lf t 1 ch"
  by (cases ch) (simp add: path_quantity_def)

lemma decay_root_total:
  "total (decay_root d tol lf t (r, N0) acc) x = total acc x + N0 * yield d tol lf t r x"
proof -
  have "sum_list (map (path_quantity tol lf t N0) chs) =
      N0 * sum_list (map (path_quantity tol lf t 1) chs)" for chs
    by (induction chs) (simp_all add: path_quantity_scale[of _ _ _ N0] algebra_simps)
  then show ?thesis
    by (simp add: decay_root_def fold_chain_total yield_def)
qed

lemma decay_root_keys:
  "fst ` set (decay_root d tol lf t (r, N0) acc) = fst ` set acc \<union> fst ` set (chains_from d r)"
  by (simp add: decay_root_def fold_chain_keys)

lemma decay_root_distinct:
  "distinct (map fst acc) \<Longrightarrow> distinct (map fst (decay_root d tol lf t item acc))"
  by (cases item) (simp add: decay_root_def fold_chain_distinct)

lemma total_Nil: "total [] x = 0"
  by (simp add: total_def)

lemma weighted_Nil: "weighted g [] = 0"
  by (simp add: weighted_def)

lemma weighted_Cons: "weighted g ((k, v) # c) = v * g k + weighted g c"
  by (simp add: weighted_def)

lemma reached_Nil: "reached d [] = {}"
  by (simp add: reached_def)

lemma reached_Cons: "reached d ((r, N0) # c) = fst ` set (chains_from d r) \<union> reached d c"
  by (simp add: reached_def)

lemma fold_decay_root_total:
  "total (fold (decay_root d tol lf t) c acc) x =
     total acc x + weighted (\<lambda>r. yield d tol lf t r x) c"
proof (induction c arbitrary: acc)
  case Nil
  show ?case by (simp add: weighted_Nil)
next
  case (Cons item c)
  obtain r N0 where item: "item = (r, N0)" by (cases item)
  show ?case
    by (simp add: item Cons.IH decay_root_total weighted_Cons)
qed

lemma fold_decay_root_keys:
  "fst ` set (fold (decay_root d tol lf t) c acc) = fst ` set acc \<union> reached d c"
proof (induction c arbitrary: acc)
  case Nil
  show ?case by (simp add: reached_Nil)
next
  case (Cons item c)
  obtain r N0 where item: "item = (r, N0)" by (cases item)
  show ?case
    by (simp add: item Cons.IH decay_root_keys reached_Cons Un_assoc)
qed

lemma fold_decay_root_distinct:
  "distinct (map fst acc) \<Longrightarrow> distinct (map fst (fold (decay_root d tol lf t) c acc))"
  by (induction c arbitrary: acc) (auto simp: decay_root_distinct)

lemma decay_contents_total:
  "total (decay_contents d tol lf t c) x = weighted (\<lambda>r. yield d tol lf t r x) c"
  by (simp add: decay_contents_def fold_decay_root_total total_Nil)

lemma decay_contents_keys:
  "fst ` set (decay_contents d tol lf t c) = reached d c"
  by (simp add: decay_contents_def fold_decay_root_keys)

lemma decay_contents_distinct:
  "distinct (map fst (decay_contents d tol lf t c))"
  by (simp add: decay_contents_def fold_decay_root_distinct)

lemma weighted_acc_add: "weighted g (acc_add c k v) = weighted g c + v * g k"
  by (induction c k v rule: acc_add.induct) (simp_all add: weighted_Nil weighted_Cons algebra_simps)

lemma weighted_add_dictionaries:
  "weighted g (add_dictionaries a b) = weighted g a + weighted g b"
  unfolding add_dictionaries_def
proof (induction b arbitrary: a)
  case Nil
  show ?case by (simp add: weighted_Nil)
next
  case (Cons kv b)
  obtain k v where kv: "kv = (k, v)" by (cases kv)
  show ?case by (simp add: kv Cons.IH weighted_acc_add weighted_Cons)
qed

lemma keys_add_dictionaries:
  "fst ` set (add_dictionaries a b) = fst ` set a \<union> fst ` set b"
  unfolding add_dictionaries_def
proof (induction b arbitrary: a)
  case Nil
  show ?case by simp
next
  case (Cons kv b)
  obtain k v where kv: "kv = (k, v)" by (cases kv)
  show ?case by (simp add: kv Cons.IH keys_acc_add)
qed

lemma distinct_add_dictionaries:
  "distinct (map fst a) \<Longrightarrow> distinct (map fst (add_dictionaries a b))"
  unfolding add_dictionaries_def
  by (induction b arbitrary: a) (auto simp: distinct_acc_add)

lemma total_fold_acc_add:
  "total (fold (\<lambda>(k, v) acc. acc_add acc k v) b a) x =
     total a x + sum_list (map snd (filter (\<lambda>kv. fst kv = x) b))"
  by (induction b arbitrary: a) (auto simp: total_acc_add)

lemma total_distinct:
  "distinct (map fst b) \<Longrightarrow> sum_list (map snd (filter (\<lambda>kv. fst kv = x) b)) = total b x"
proof (induction b)
  case Nil
  then show ?case by (simp add: total_def)
next
  case (Cons kv b)
  obtain k v where kv: "kv = (k, v)" by (cases kv)
  show ?case
  proof (cases "k = x")
    case True
    with Cons.prems kv have "x \<notin> fst ` set b" by auto
    then have "filter (\<lambda>kv. fst kv = x) b = []"
      by (auto simp: filter_empty_conv)
    with True kv show ?thesis by (simp add: total_def)
  next
    case False
    with Cons kv show ?thesis by (simp add: total_def)
  qed
qed

lemma total_add_dictionaries:
  "distinct (map fst b) \<Longrightarrow> total (add_dictionaries a b) x = total a x + total b x"
  by (simp add: add_dictionaries_def total_fold_acc_add total_distinct)

lemma reached_add_dictionaries:
  "reached d (add_dictionaries a b) = reached d a \<union> reached d b"
  by (auto simp: reached_def keys_add_dictionaries)

lemma decay_contents_additive:
  "dict_eq (decay_contents d tol lf t (add_dictionaries a b))
           (add_dictionaries (decay_contents d tol lf t a) (decay_contents d tol lf t b))"
proof -
  let ?L = "decay_contents d tol lf t (add_dictionaries a b)"
  let ?R = "add_dictionaries (decay_contents d tol lf t a) (decay_contents d tol lf t b)"
  have k: "fst ` set ?L = fst ` set ?R"
    by (simp add: decay_contents_keys keys_add_dictionaries reached_add_dictionaries)
  have v: "total ?L x = total ?R x" for x
    by (simp add: decay_contents_total total_add_dictionaries decay_contents_distinct
        weighted_add_dictionaries)
  have "map_of ?L x = map_of ?R x" for x
    unfolding map_of_total k v ..
  then have "map_of ?L = map_of ?R" by (rule ext)
  then show ?thesis
    by (simp add: dict_eq_def decay_contents_distinct distinct_add_dictionaries)
qed

section \<open>Additivity of decay\<close>

text \<open>
  Claim C4. For two inventories bound to the same dataset and any elapsed time, decaying
  their sum gives the same inventory as adding their decayed inventories: the same dataset
  and equal contents dictionaries.
\<close>

theorem decay_additive:
  assumes "inv_data a = inv_data b"
  shows "\<exists>ab s. Inventory_plus a b = Inr ab
          \<and> Inventory_plus (decay_seconds tol lf a t) (decay_seconds tol lf b t) = Inr s
          \<and> inv_data (decay_seconds tol lf ab t) = inv_data s
          \<and> dict_eq (contents (decay_seconds tol lf ab t)) (contents s)"
  using assms decay_contents_additive[of "inv_data b" tol lf t "contents a" "contents b"]
  by (simp add: Inventory_plus_def decay_seconds_def)

theorem decay_additive_witness:
  "inv_data example_inv_a = inv_data example_inv_b
   \<and> Inventory_plus example_inv_a example_inv_b =
         Inr \<lparr>contents = [(''K-40'', 4), (''H-3'', 2)], inv_data = example_data\<rparr>
   \<and> (\<exists>s. Inventory_plus (decay_seconds 0 (\<lambda>lams t. 0) example_inv_a 1)
                           (decay_seconds 0 (\<lambda>lams t. 0) example_inv_b 1) = Inr s
          \<and> dict_eq (contents (decay_seconds 0 (\<lambda>lams t. 0)
                        \<lparr>contents = [(''K-40'', 4), (''H-3'', 2)], inv_data = example_data\<rparr> 1))
                     (contents s))"
proof -
  have d: "inv_data example_inv_a = inv_data example_inv_b"
    by (simp add: example_inv_a_def example_inv_b_def)
  have p: "Inventory_plus example_inv_a example_inv_b =
         Inr \<lparr>contents = [(''K-40'', 4), (''H-3'', 2)], inv_data = example_data\<rparr>"
    by (simp add: Inventory_plus_def add_dictionaries_def example_inv_a_def example_inv_b_def)
  from decay_additive[OF d, where tol = 0 and lf = "\<lambda>lams t. 0" and t = 1] p
  have "\<exists>s. Inventory_plus (decay_seconds 0 (\<lambda>lams t. 0) example_inv_a 1)
                           (decay_seconds 0 (\<lambda>lams t. 0) example_inv_b 1) = Inr s
          \<and> dict_eq (contents (decay_seconds 0 (\<lambda>lams t. 0)
                        \<lparr>contents = [(''K-40'', 4), (''H-3'', 2)], inv_data = example_data\<rparr> 1))
                     (contents s)"
    by auto
  with d p show ?thesis by blast
qed

section \<open>Decay over one half-life\<close>

lemma half_life_eq:
  assumes "decay_constant self \<noteq> 0"
    and "seconds_per_unit (year_conv (data self)) u = Some b" and "b \<noteq> 0"
  shows "half_life self u = Inr (ln2 (data self) / decay_constant self / b)"
proof (cases "u = ''s''")
  case True
  with assms(2) have "b = 1" by (simp add: seconds_per_unit_s)
  with True assms(1) show ?thesis by (simp add: half_life_def)
next
  case False
  with assms show ?thesis
    by (simp add: half_life_def time_unit_conv_def seconds_per_unit_s)
qed

lemma chains_head:
  "chains d n x bp lams = (x, bp, lams @ [decay_const_of d x]) # tl (chains d n x bp lams)"
  by (cases n) simp_all

lemma chains_no_progeny:
  "progeny_of d x = [] \<Longrightarrow> chains d n x bp lams = [(x, bp, lams @ [decay_const_of d x])]"
  by (cases n) simp_all

lemma degenerate_single: "\<not> degenerate tol [l]"
  by (simp add: degenerate_def)

lemma bateman_sum_single: "bateman_sum [l] t = exp (- l * t)"
  by (simp add: bateman_sum_def)

lemma path_quantity_root:
  "path_quantity tol lf t N0 (x, 1, [l]) = N0 * exp (- l * t)"
  by (simp add: path_quantity_def time_factor_def degenerate_single bateman_sum_single)

lemma yield_self:
  assumes "r \<notin> set (descendants d r)"
  shows "yield d tol lf t r r = exp (- decay_const_of d r * t)"
proof -
  let ?rest = "tl (chains_from d r)"
  have c: "chains_from d r = (r, 1, [decay_const_of d r]) # ?rest"
    unfolding chains_from_def using chains_head[of d _ r 1 "[]"] by simp
  from assms have "filter (\<lambda>ch. fst ch = r) ?rest = []"
    by (auto simp: descendants_def filter_empty_conv)
  then have "filter (\<lambda>ch. fst ch = r) (chains_from d r) = [(r, 1, [decay_const_of d r])]"
    by (subst c) simp
  then show ?thesis
    by (simp add: yield_def path_quantity_root)
qed

lemma root_reached: "r \<in> reached d [(r, N0)]"
proof -
  have "chains_from d r = (r, 1, [decay_const_of d r]) # tl (chains_from d r)"
    unfolding chains_from_def using chains_head[of d _ r 1 "[]"] by simp
  then have "r \<in> fst ` set (chains_from d r)"
    by (metis fst_conv image_eqI list.set_intros(1))
  then show ?thesis by (simp add: reached_def)
qed

lemma decay_single_root:
  assumes "r \<notin> set (descendants d r)"
  shows "map_of (decay_contents d tol lf t [(r, N0)]) r =
           Some (N0 * exp (- decay_const_of d r * t))"
  by (simp add: map_of_total decay_contents_keys root_reached decay_contents_total
      weighted_Cons weighted_Nil yield_self[OF assms])

lemma exp_half_life:
  assumes "0 < (l::real)"
  shows "exp (- l * (ln 2 / l)) = 1 / 2"
proof -
  from assms have "- l * (ln 2 / l) = - ln 2" by simp
  then have "exp (- l * (ln 2 / l)) = exp (- ln (2::real))" by simp
  also have "\<dots> = 1 / 2" by (simp add: exp_minus)
  finally show ?thesis .
qed

lemma example_init_H3: "Radionuclide_init ''H-3'' example_data = Inr example_H3"
proof -
  have "parse_radionuclide ''H-3'' (radionuclides example_data) (dataset example_data) = Inr ''H-3''"
    by (simp add: parse_radionuclide_def split_identifier_def split_symbol_first_def
      valid_symbol_def valid_mass_def valid_suffix_def canonical_form_def
      is_digit_def is_letter_def is_upper_def is_lower_def example_data_def)
  then show ?thesis
    unfolding Radionuclide_init_def
    by (simp add: dataset_entry_def dict_getitem_def list_getitem_def example_data_def
      example_H3_def)
qed

lemma example_H3_no_progeny: "progeny_of example_data ''H-3'' = []"
  by (simp add: progeny_of_def dataset_entry_def dict_getitem_def list_getitem_def
      example_data_def)

lemma example_H3_descendants: "descendants example_data ''H-3'' = []"
  by (simp add: descendants_def chains_from_def chains_no_progeny[OF example_H3_no_progeny])

text \<open>
  Claim C3. An inventory that holds one nuclide with quantity \<open>Q\<close>, decayed over one
  half-life of that nuclide (the value \<open>half_life\<close> returns, in the same unit), holds
  \<open>Q / 2\<close> for the nuclide. The nuclide has a positive decay constant and is not one of its
  own descendants; the dataset's attribute \<open>ln2\<close> holds \<open>ln 2\<close>. The witness is the
  fixture: 10 of H-3 decayed for 12.32 years leaves 5.
\<close>

theorem decay_one_half_life:
  assumes "Radionuclide_init raw d = Inr rn"
    and "0 < decay_constant rn" and "recognized_unit u"
    and "0 < year_conv d" and "ln2 d = ln 2"
    and "radionuclide rn \<notin> set (descendants d (radionuclide rn))"
  shows "\<exists>h out. half_life rn u = Inr h
          \<and> Inventory_decay tol lf \<lparr>contents = [(radionuclide rn, Q)], inv_data = d\<rparr> h u = Inr out
          \<and> map_of (contents out) (radionuclide rn) = Some (Q / 2)"
proof -
  let ?x = "radionuclide rn" and ?l = "decay_constant rn"
  have dat: "data rn = d" by (rule init_success(4)[OF assms(1)])
  have lam: "decay_const_of d ?x = ?l"
    using init_success(2)[OF assms(1)] by (simp add: decay_const_of_def)
  from assms(3) obtain b where b: "seconds_per_unit (year_conv d) u = Some b"
    using seconds_per_unit_recognized by blast
  have bpos: "0 < b" by (rule seconds_per_unit_pos[OF b assms(4)])
  let ?h = "ln 2 / ?l / b"
  have h: "half_life rn u = Inr ?h"
    using half_life_eq[of rn u b] assms(2,5) b bpos by (simp add: dat)
  have conv: "time_unit_conv ?h u ''s'' (year_conv d) = Inr (ln 2 / ?l)"
    using b bpos by (simp add: time_unit_conv_def seconds_per_unit_s)
  let ?out = "decay_seconds tol lf \<lparr>contents = [(?x, Q)], inv_data = d\<rparr> (ln 2 / ?l)"
  have sel: "inv_data \<lparr>contents = [(?x, Q)], inv_data = d\<rparr> = d" by simp
  have dec: "Inventory_decay tol lf \<lparr>contents = [(?x, Q)], inv_data = d\<rparr> ?h u = Inr ?out"
    unfolding Inventory_decay_def sel conv by simp
  have "map_of (contents ?out) ?x = Some (Q * exp (- ?l * (ln 2 / ?l)))"
    using decay_single_root[OF assms(6), of tol lf "ln 2 / ?l" Q]
    by (simp add: decay_seconds_def lam)
  then have "map_of (contents ?out) ?x = Some (Q / 2)"
    unfolding exp_half_life[OF assms(2)] by simp
  with h dec show ?thesis by blast
qed

theorem decay_one_half_life_witness:
  "Radionuclide_init ''H-3'' example_data = Inr example_H3
   \<and> 0 < decay_constant example_H3 \<and> recognized_unit ''y''
   \<and> 0 < year_conv example_data \<and> ln2 example_data = ln 2
   \<and> radionuclide example_H3 = ''H-3''
   \<and> ''H-3'' \<notin> set (descendants example_data ''H-3'')
   \<and> half_life example_H3 ''y'' = Inr (1232 / 100)
   \<and> (\<exists>out. Inventory_decay 0 (\<lambda>lams t. 0)
                \<lparr>contents = [(''H-3'', 10)], inv_data = example_data\<rparr> (1232 / 100) ''y'' = Inr out
            \<and> map_of (contents out) ''H-3'' = Some 5)"
proof -
  have a2: "0 < decay_constant example_H3"
    by (simp add: example_H3_def H3_decay_const_def)
  have a3: "recognized_unit ''y''"
    by (simp add: recognized_unit_def year_units_def)
  have a4: "0 < year_conv example_data" and a5: "ln2 example_data = ln 2"
    by (simp_all add: example_data_def)
  have x: "radionuclide example_H3 = ''H-3''" by (simp add: example_H3_def)
  have a6: "radionuclide example_H3 \<notin> set (descendants example_data (radionuclide example_H3))"
    by (simp add: x example_H3_descendants)
  have spu: "seconds_per_unit (year_conv (data example_H3)) ''y'' = Some (3652422 / 10000 * 86400)"
    by (simp add: seconds_per_unit_def second_units_def year_units_def example_H3_def
        example_data_def)
  have hl: "half_life example_H3 ''y'' = Inr (1232 / 100)"
    using half_life_eq[OF _ spu] a2
    by (simp add: example_H3_def example_data_def H3_decay_const_def)
  from decay_one_half_life[OF example_init_H3 a2 a3 a4 a5 a6,
      where tol = 0 and lf = "\<lambda>lams t. 0" and Q = 10]
  obtain h out where h: "half_life example_H3 ''y'' = Inr h"
    and o: "Inventory_decay 0 (\<lambda>lams t. 0)
              \<lparr>contents = [(radionuclide example_H3, 10)], inv_data = example_data\<rparr> h ''y'' = Inr out"
    and m: "map_of (contents out) (radionuclide example_H3) = Some (10 / 2)"
    by blast
  from h hl have "h = 1232 / 100" by simp
  with o m have "\<exists>out. Inventory_decay 0 (\<lambda>lams t. 0)
                \<lparr>contents = [(''H-3'', 10)], inv_data = example_data\<rparr> (1232 / 100) ''y'' = Inr out
            \<and> map_of (contents out) ''H-3'' = Some 5"
    by (auto simp: x)
  with example_init_H3 a2 a3 a4 a5 x a6 hl show ?thesis by simp
qed

end
